theory Spec2Isabelle
  imports Main "HOL-Library.Word"
begin

unbundle bit_operations_syntax

section \<open>libsensors: the sensor event multiplexer (sensors.cpp)\<close>

subsection \<open>Constants\<close>

text \<open>
  The private enum of \<open>sensors_poll_context_t\<close>:
  \<^verbatim>\<open>enum { light = 0, proximity = 1, akm = 2, gyro = 3, numSensorDrivers, numFds };\<close>
  and \<^verbatim>\<open>static const size_t wake = numFds - 1;\<close>
\<close>

definition light :: nat where "light = 0"
definition proximity :: nat where "proximity = 1"
definition akm :: nat where "akm = 2"
definition gyro :: nat where "gyro = 3"
definition numSensorDrivers :: nat where "numSensorDrivers = 4"
definition numFds :: nat where "numFds = 5"
definition wake :: nat where "wake = numFds - 1"

text \<open>\<^verbatim>\<open>WAKE_MESSAGE = 'W'\<close>; \<open>EINVAL\<close> and \<open>POLLIN\<close> have their Linux values
  (errno.h, poll.h); \<open>revents\<close> is a C \<open>short\<close>.\<close>

definition WAKE_MESSAGE :: char where "WAKE_MESSAGE = CHR ''W''"
definition EINVAL :: int where "EINVAL = 22"
definition POLLIN :: "16 word" where "POLLIN = 1"

text \<open>
  The sensor identifiers \<open>ID_A\<close>, ... come from \<open>sensors.h\<close>, which is not among the
  sources: they are a parameter of the model. As labels of one C \<open>switch\<close> they are
  pairwise distinct.
\<close>

record sensor_ids =
  ID_A :: int
  ID_M :: int
  ID_O :: int
  ID_L :: int
  ID_P :: int
  ID_GY :: int
  ID_SM :: int

definition ids_distinct :: "sensor_ids \<Rightarrow> bool" where
  "ids_distinct ids =
     distinct [ID_A ids, ID_M ids, ID_O ids, ID_SM ids, ID_P ids, ID_L ids, ID_GY ids]"

definition declared_ids :: "sensor_ids \<Rightarrow> int set" where
  "declared_ids ids = {ID_A ids, ID_M ids, ID_O ids, ID_SM ids, ID_P ids, ID_L ids, ID_GY ids}"

subsection \<open>handleToDriver\<close>

definition handleToDriver :: "sensor_ids \<Rightarrow> int \<Rightarrow> int" where
  "handleToDriver ids handle =
     (if handle = ID_A ids \<or> handle = ID_M ids \<or> handle = ID_O ids \<or> handle = ID_SM ids
        then int akm
      else if handle = ID_P ids then int proximity
      else if handle = ID_L ids then int light
      else if handle = ID_GY ids then int gyro
      else - EINVAL)"

subsection \<open>The environment: drivers and operating system\<close>

text \<open>
  The drivers (\<open>SensorBase\<close> subclasses) and the system calls are opaque to the
  multiplexer. Every call that leaves the multiplexer is recorded, with its arguments and
  its answer, in a trace; the environment is an arbitrary function from the trace so far
  (and the arguments) to the answer, so an answer may depend on everything that happened
  before. The log lines (\<open>ALOGE\<close>) of sensors.cpp are not recorded. A driver is named by
  its index in \<open>mSensors\<close>. An \<open>errno\<close> is an error number, never negative. The
  \<open>data\<close> pointer handed to \<open>readEvents\<close> is its offset, in events, from the start of
  the caller's buffer.
\<close>

datatype call =
    HasPendingEvents nat bool
  | ReadEvents nat int int int
  | Poll int int
  | WakeRead int char
  | WakeWrite "char list" int
  | Usleep nat
  | Enable nat int int int
  | SetDelay nat int int int
  | Batch nat int int int int int
  | Flush nat int int

record env =
  drv_hasPendingEvents :: "call list \<Rightarrow> nat \<Rightarrow> bool"
  drv_readEvents :: "call list \<Rightarrow> nat \<Rightarrow> int \<Rightarrow> int \<Rightarrow> int"
  drv_enable :: "call list \<Rightarrow> nat \<Rightarrow> int \<Rightarrow> int \<Rightarrow> int"
  drv_setDelay :: "call list \<Rightarrow> nat \<Rightarrow> int \<Rightarrow> int \<Rightarrow> int"
  drv_batch :: "call list \<Rightarrow> nat \<Rightarrow> int \<Rightarrow> int \<Rightarrow> int \<Rightarrow> int \<Rightarrow> int"
  drv_flush :: "call list \<Rightarrow> nat \<Rightarrow> int \<Rightarrow> int"
  sys_poll :: "call list \<Rightarrow> (nat \<Rightarrow> 16 word) \<Rightarrow> int \<Rightarrow> int \<times> (nat \<Rightarrow> 16 word)"
  sys_errno :: "call list \<Rightarrow> nat"
  sys_read_wake :: "call list \<Rightarrow> int \<times> char"
  sys_write_wake :: "call list \<Rightarrow> char list \<Rightarrow> int"

subsection \<open>activate, setDelay, batch, flush\<close>

text \<open>Each returns the C return value and the trace of the calls it made.\<close>

definition activate :: "env \<Rightarrow> sensor_ids \<Rightarrow> int \<Rightarrow> int \<Rightarrow> int \<times> call list" where
  "activate E ids handle enabled =
     (let index = handleToDriver ids handle in
      if index < 0 then (index, [])
      else
        let t1 = (if index = int gyro \<and> enabled = 0 then [Usleep (200 * 1000)] else []);
            err = drv_enable E t1 (nat index) handle enabled;
            t2 = t1 @ [Enable (nat index) handle enabled err]
        in if enabled \<noteq> 0 \<and> err = 0
           then (err, t2 @ [WakeWrite [WAKE_MESSAGE] (sys_write_wake E t2 [WAKE_MESSAGE])])
           else (err, t2))"

definition setDelay :: "env \<Rightarrow> sensor_ids \<Rightarrow> int \<Rightarrow> int \<Rightarrow> int \<times> call list" where
  "setDelay E ids handle ns =
     (let index = handleToDriver ids handle in
      if index < 0 then (index, [])
      else let r = drv_setDelay E [] (nat index) handle ns
           in (r, [SetDelay (nat index) handle ns r]))"

definition batch :: "env \<Rightarrow> sensor_ids \<Rightarrow> int \<Rightarrow> int \<Rightarrow> int \<Rightarrow> int \<Rightarrow> int \<times> call list" where
  "batch E ids handle flags sampling_period_ns max_report_latency_ns =
     (let index = handleToDriver ids handle in
      if index < 0 then (index, [])
      else let r = drv_batch E [] (nat index) handle flags sampling_period_ns max_report_latency_ns
           in (r, [Batch (nat index) handle flags sampling_period_ns max_report_latency_ns r]))"

definition flush :: "env \<Rightarrow> sensor_ids \<Rightarrow> int \<Rightarrow> int \<times> call list" where
  "flush E ids handle =
     (let index = handleToDriver ids handle in
      if index < 0 then (index, [])
      else let r = drv_flush E [] (nat index) handle
           in (r, [Flush (nat index) handle r]))"

subsection \<open>pollEvents\<close>

text \<open>
  The state of one \<open>pollEvents\<close> call: the \<open>revents\<close> fields of \<open>mPollFds\<close> (a member,
  so it comes from the previous call), the locals \<open>count\<close>, \<open>nbEvents\<close> and \<open>data\<close>,
  and the trace of the calls made so far. The \<open>fd\<close> and \<open>events\<close> fields never change
  after the constructor and are left out. The C \<open>int\<close>s are modelled as \<open>int\<close>.
\<close>

record poll_state =
  revents :: "nat \<Rightarrow> 16 word"
  count :: int
  nbEvents :: int
  data :: int
  hist :: "call list"

text \<open>Lines 275 to 282: the read of one sensor and the bookkeeping after it.\<close>

definition drain_read :: "env \<Rightarrow> nat \<Rightarrow> poll_state \<Rightarrow> poll_state" where
  "drain_read E i s =
     (let nb = drv_readEvents E (hist s) i (data s) (count s) in
      s\<lparr>revents := (if nb < count s then (revents s)(i := 0) else revents s),
        count := count s - nb,
        nbEvents := nbEvents s + nb,
        data := data s + nb,
        hist := hist s @ [ReadEvents i (data s) (count s) nb]\<rparr>)"

text \<open>Lines 273 to 283: the body of the \<open>for\<close> loop. The \<open>||\<close> short-circuits:
  \<open>hasPendingEvents\<close> is asked only when the readiness bit is clear.\<close>

definition drain_body :: "env \<Rightarrow> nat \<Rightarrow> poll_state \<Rightarrow> poll_state" where
  "drain_body E i s =
     (if revents s i AND POLLIN \<noteq> 0 then drain_read E i s
      else
        let p = drv_hasPendingEvents E (hist s) i;
            s1 = s\<lparr>hist := hist s @ [HasPendingEvents i p]\<rparr>
        in if p then drain_read E i s1 else s1)"

text \<open>Line 272: \<^verbatim>\<open>for (int i=0 ; count && i<numSensorDrivers ; i++)\<close>, from index \<open>i\<close> on.\<close>

function drain :: "env \<Rightarrow> nat \<Rightarrow> poll_state \<Rightarrow> poll_state" where
  "drain E i s =
     (if count s \<noteq> 0 \<and> i < numSensorDrivers then drain E (Suc i) (drain_body E i s) else s)"
  by pat_completeness auto
termination
  by (relation "measure (\<lambda>(E, i, s). numSensorDrivers - i)") auto

declare drain.simps [simp del]

text \<open>
  Lines 290 to 301, entered when \<open>count\<close> is not zero: the \<open>poll\<close> call, its error return
  (the first component, \<open>-errno\<close>), and the wake pipe. The second component is \<open>n\<close>.
\<close>

definition wait_phase :: "env \<Rightarrow> poll_state \<Rightarrow> int option \<times> int \<times> poll_state" where
  "wait_phase E s =
     (let timeout = (if nbEvents s \<noteq> 0 then 0 else - 1);
          (n, rvs) = sys_poll E (hist s) (revents s) timeout;
          s1 = s\<lparr>revents := rvs, hist := hist s @ [Poll timeout n]\<rparr>
      in if n < 0 then (Some (- int (sys_errno E (hist s1))), n, s1)
         else if rvs wake AND POLLIN \<noteq> 0 then
           let (result, msg) = sys_read_wake E (hist s1)
           in (None, n, s1\<lparr>revents := rvs(wake := 0), hist := hist s1 @ [WakeRead result msg]\<rparr>)
         else (None, n, s1))"

text \<open>
  Lines 270 to 306: the \<open>do ... while (n && count)\<close> loop. The loop need not end (a wait
  can report readiness for ever without a source delivering an event), so it runs on
  fuel: one unit per iteration, the result \<open>None\<close> when the fuel is used up. The state
  reached is returned in both cases.
\<close>

fun pollLoop :: "env \<Rightarrow> nat \<Rightarrow> poll_state \<Rightarrow> int option \<times> poll_state" where
  "pollLoop E 0 s = (None, s)"
| "pollLoop E (Suc k) s =
     (let s1 = drain E 0 s in
      if count s1 \<noteq> 0 then
        (case wait_phase E s1 of
           (Some e, n, s2) \<Rightarrow> (Some e, s2)
         | (None, n, s2) \<Rightarrow>
             if n \<noteq> 0 \<and> count s2 \<noteq> 0 then pollLoop E k s2 else (Some (nbEvents s2), s2))
      else (Some (nbEvents s1), s1))"

definition pollEvents :: "env \<Rightarrow> (nat \<Rightarrow> 16 word) \<Rightarrow> int \<Rightarrow> nat \<Rightarrow> int option \<times> poll_state" where
  "pollEvents E rvs cnt fuel =
     pollLoop E fuel \<lparr>revents = rvs, count = cnt, nbEvents = 0, data = 0, hist = []\<rparr>"

subsection \<open>Reading a trace\<close>

text \<open>The events the drivers returned according to a trace (the sum of the \<open>nb\<close>), the
  timeouts of its waits, and its wake-pipe writes.\<close>

fun nb_of :: "call \<Rightarrow> int" where
  "nb_of (ReadEvents i d n nb) = nb"
| "nb_of c = 0"

definition events_read :: "call list \<Rightarrow> int" where
  "events_read t = sum_list (map nb_of t)"

fun is_read_of :: "nat \<Rightarrow> call \<Rightarrow> bool" where
  "is_read_of i (ReadEvents j d n nb) = (i = j)"
| "is_read_of i c = False"


fun is_usleep :: "call \<Rightarrow> bool" where
  "is_usleep (Usleep us) = True"
| "is_usleep c = False"



section \<open>liblights: the light actuator (lights.c)\<close>

subsection \<open>Data\<close>

text \<open>\<open>struct light_state_t\<close> of hardware/lights.h: \<open>color\<close> is an \<open>unsigned int\<close>.\<close>

record light_state_t =
  color :: "32 word"
  flashMode :: int
  flashOnMS :: int
  flashOffMS :: int
  brightnessMode :: int

definition LCD_FILE :: string where
  "LCD_FILE = ''/sys/class/leds/lcd-backlight/brightness''"
definition BUTTONS_FILE :: string where
  "BUTTONS_FILE = ''/sys/class/misc/melfas_touchkey/brightness''"
definition NOTIFICATION_FILE :: string where
  "NOTIFICATION_FILE = ''/sys/class/misc/backlightnotification/notification_led''"
definition NOTIFICATION_BLINK_FILE :: string where
  "NOTIFICATION_BLINK_FILE = ''/sys/class/misc/backlightnotification/blink_control''"
definition NOTIFICATION_BLINK_RATE_FILE :: string where
  "NOTIFICATION_BLINK_RATE_FILE = ''/sys/class/misc/backlightnotification/blink_interval''"
definition SETTINGS_FILE :: string where
  "SETTINGS_FILE = ''/data/.disable_touchlight''"

text \<open>
  The calls that leave the module, with their answers: \<open>open\<close> (the descriptor, negative on
  failure), \<open>write\<close> (the bytes and the amount written, -1 on failure), \<open>close\<close>,
  \<open>fopen\<close> for reading (the bytes the stream will deliver, \<open>None\<close> for a null stream)
  and the error log \<open>ALOGE\<close>. The two \<open>ALOGE\<close> messages of the file are kept by their
  format and arguments. \<open>write_str\<close> logs with the same format as \<open>write_int\<close>
  ("write_int failed to open"). The debug log \<open>ALOGD\<close> and the mutex \<open>g_lock\<close> are
  left out: the model is of one thread.
\<close>

datatype logline = Failed_to_open string | Backlight_values int int

datatype lcall =
    Open string int
  | Write int string int
  | Close int
  | Fopen string "string option"
  | ALOGE logline

record lights_os =
  sys_open :: "lcall list \<Rightarrow> string \<Rightarrow> int"
  sys_write :: "lcall list \<Rightarrow> int \<Rightarrow> string \<Rightarrow> int"
  sys_fopen :: "lcall list \<Rightarrow> string \<Rightarrow> string option"
  sys_errno_l :: "lcall list \<Rightarrow> nat"

text \<open>
  The globals of the file, the two function-local statics \<open>already_warned\<close> (one in
  \<open>write_int\<close>, one in \<open>write_str\<close>) and the trace of the calls made so far.
\<close>

record lights =
  g_notification_blink_support :: int
  g_notification_blink_rate_support :: int
  g_enable_touchlight :: int
  write_int_already_warned :: int
  write_str_already_warned :: int
  ltrace :: "lcall list"

text \<open>The static initialisers: \<open>g_enable_touchlight = -1\<close>, every other one 0.\<close>

definition lights_init :: lights where
  "lights_init =
     \<lparr>g_notification_blink_support = 0, g_notification_blink_rate_support = 0,
      g_enable_touchlight = - 1, write_int_already_warned = 0, write_str_already_warned = 0,
      ltrace = []\<rparr>"

subsection \<open>Formatting\<close>

text \<open>\<open>%d\<close> of \<open>sprintf\<close>: the decimal digits, most significant first, after a minus sign
  for a negative value.\<close>

function dec_digits :: "nat \<Rightarrow> string" where
  "dec_digits n =
     (if n < 10 then [''0123456789'' ! n]
      else dec_digits (n div 10) @ [''0123456789'' ! (n mod 10)])"
  by pat_completeness auto
termination
  by (relation "measure (\<lambda>n. n)") auto

declare dec_digits.simps [simp del]

definition fmt_d :: "int \<Rightarrow> string" where
  "fmt_d v = (if v < 0 then CHR ''-'' # dec_digits (nat (- v)) else dec_digits (nat v))"

subsection \<open>write_int, write_str, load_settings\<close>

definition write_int :: "lights_os \<Rightarrow> string \<Rightarrow> int \<Rightarrow> lights \<Rightarrow> int \<times> lights" where
  "write_int os path v s =
     (let fd = sys_open os (ltrace s) path;
          s1 = s\<lparr>ltrace := ltrace s @ [Open path fd]\<rparr>
      in if fd \<ge> 0 then
           let buffer = fmt_d v @ [CHR 0x0A];
               amt = sys_write os (ltrace s1) fd buffer;
               s2 = s1\<lparr>ltrace := ltrace s1 @ [Write fd buffer amt, Close fd]\<rparr>
           in (if amt = - 1 then - int (sys_errno_l os (ltrace s2)) else 0, s2)
         else
           let s2 = (if write_int_already_warned s1 = 0
                     then s1\<lparr>ltrace := ltrace s1 @ [ALOGE (Failed_to_open path)],
                             write_int_already_warned := 1\<rparr>
                     else s1)
           in (- int (sys_errno_l os (ltrace s2)), s2))"

definition load_settings :: "lights_os \<Rightarrow> lights \<Rightarrow> lights" where
  "load_settings os s =
     (let fp = sys_fopen os (ltrace s) SETTINGS_FILE;
          s1 = s\<lparr>ltrace := ltrace s @ [Fopen SETTINGS_FILE fp]\<rparr>
      in case fp of
           None \<Rightarrow> s1\<lparr>g_enable_touchlight := 1\<rparr>
         | Some bytes \<Rightarrow>
             s1\<lparr>g_enable_touchlight :=
                  (if (case bytes of [] \<Rightarrow> False | c # cs \<Rightarrow> c = CHR ''1'') then 0 else 1)\<rparr>)"

definition write_str :: "lights_os \<Rightarrow> string \<Rightarrow> string \<Rightarrow> lights \<Rightarrow> int \<times> lights" where
  "write_str os path str s =
     (let fd = sys_open os (ltrace s) path;
          s1 = s\<lparr>ltrace := ltrace s @ [Open path fd]\<rparr>
      in if fd \<ge> 0 then
           let amt = sys_write os (ltrace s1) fd str;
               s2 = s1\<lparr>ltrace := ltrace s1 @ [Write fd str amt, Close fd]\<rparr>
           in (if amt = - 1 then - int (sys_errno_l os (ltrace s2)) else 0, s2)
         else
           let s2 = (if write_str_already_warned s1 = 0
                     then s1\<lparr>ltrace := ltrace s1 @ [ALOGE (Failed_to_open path)],
                             write_str_already_warned := 1\<rparr>
                     else s1)
           in (- int (sys_errno_l os (ltrace s2)), s2))"

subsection \<open>rgb_to_brightness and the set_light functions\<close>

text \<open>
  \<^verbatim>\<open>int color = state->color & 0x00ffffff;\<close> is below \<open>2^24\<close>, so the \<open>int\<close> holds the
  same bits, every shift is of a non-negative value and the weighted sum (at most
  \<open>256 * 255\<close>) does not overflow; the result is read as a signed \<open>int\<close>.
\<close>

definition rgb_to_brightness :: "light_state_t \<Rightarrow> int" where
  "rgb_to_brightness st =
     (let c = color st AND 0x00ffffff in
      sint (drop_bit 8
        ((77 * (drop_bit 16 c AND 0x00ff))
          + (150 * (drop_bit 8 c AND 0x00ff)) + (29 * (c AND 0x00ff)))))"

definition set_light_battery :: "lights_os \<Rightarrow> light_state_t \<Rightarrow> lights \<Rightarrow> int \<times> lights" where
  "set_light_battery os st s = (0, s)"

definition set_light_notifications :: "lights_os \<Rightarrow> light_state_t \<Rightarrow> lights \<Rightarrow> int \<times> lights" where
  "set_light_notifications os st s =
     (let bln_led_control = (if color st AND 0x00ffffff \<noteq> 0 then 1 else 0 :: int);
          (res, s1) = write_int os NOTIFICATION_FILE bln_led_control s
      in if g_notification_blink_support s1 \<noteq> 0 \<and> bln_led_control \<noteq> 0 \<and> flashMode st \<noteq> 0 then
           let (res2, s2) =
                 (if g_notification_blink_rate_support s1 \<noteq> 0
                  then write_str os NOTIFICATION_BLINK_RATE_FILE
                         (take 9 (fmt_d (flashOnMS st) @ '' '' @ fmt_d (flashOffMS st))) s1
                  else (res, s1))
           in write_int os NOTIFICATION_BLINK_FILE bln_led_control s2
         else (res, s1))"

definition set_light_backlight :: "lights_os \<Rightarrow> light_state_t \<Rightarrow> lights \<Rightarrow> int \<times> lights" where
  "set_light_backlight os st s =
     (let s1 = load_settings os s;
          brightness = rgb_to_brightness st;
          s2 = s1\<lparr>ltrace := ltrace s1 @ [ALOGE (Backlight_values (g_enable_touchlight s1) brightness)]\<rparr>
      in write_int os LCD_FILE brightness s2)"

definition set_light_keyboard :: "lights_os \<Rightarrow> light_state_t \<Rightarrow> lights \<Rightarrow> int \<times> lights" where
  "set_light_keyboard os st s = (0, s)"

definition set_light_buttons :: "lights_os \<Rightarrow> light_state_t \<Rightarrow> lights \<Rightarrow> int \<times> lights" where
  "set_light_buttons os st s =
     (let touch_led_control = (if color st AND 0x00ffffff \<noteq> 0 then 1 else 2 :: int)
      in if g_enable_touchlight s = - 1 \<or> g_enable_touchlight s > 0
         then write_int os BUTTONS_FILE touch_led_control s
         else (0, s))"

text \<open>In \<open>set_light_notifications\<close> the \<open>snprintf\<close> into \<open>buffer[10]\<close> keeps at most
  nine characters.\<close>

text \<open>The five lights \<open>open_lights\<close> hands out, and a sequence of \<open>set_light\<close> calls on
  them, each on the state the previous one left.\<close>

datatype light_id = BACKLIGHT | KEYBOARD | BUTTONS | BATTERY | NOTIFICATIONS

fun set_light :: "lights_os \<Rightarrow> light_id \<Rightarrow> light_state_t \<Rightarrow> lights \<Rightarrow> int \<times> lights" where
  "set_light os BACKLIGHT st s = set_light_backlight os st s"
| "set_light os KEYBOARD st s = set_light_keyboard os st s"
| "set_light os BUTTONS st s = set_light_buttons os st s"
| "set_light os BATTERY st s = set_light_battery os st s"
| "set_light os NOTIFICATIONS st s = set_light_notifications os st s"

fun set_lights :: "lights_os \<Rightarrow> (light_id \<times> light_state_t) list \<Rightarrow> lights \<Rightarrow> lights" where
  "set_lights os [] s = s"
| "set_lights os ((l, st) # cs) s = set_lights os cs (snd (set_light os l st s))"

subsection \<open>Reading a trace\<close>

fun is_fopen :: "lcall \<Rightarrow> bool" where
  "is_fopen (Fopen p r) = True"
| "is_fopen c = False"

fun is_open_of :: "string \<Rightarrow> lcall \<Rightarrow> bool" where
  "is_open_of p (Open q fd) = (p = q)"
| "is_open_of p c = False"

text \<open>The calls a state \<open>s'\<close> has made since the state \<open>s\<close>.\<close>

definition since :: "lights \<Rightarrow> lights \<Rightarrow> lcall list" where
  "since s s' = drop (length (ltrace s)) (ltrace s')"

section \<open>Further definitions used by the theorems\<close>

subsection \<open>Trace readers\<close>

text \<open>The results of the \<open>enable\<close> calls of a trace and the payloads of its wake-pipe
  writes, in order.\<close>

fun enable_results :: "call list \<Rightarrow> int list" where
  "enable_results [] = []"
| "enable_results (Enable i h e err # cs) = err # enable_results cs"
| "enable_results (c # cs) = enable_results cs"

fun wake_payloads :: "call list \<Rightarrow> char list list" where
  "wake_payloads [] = []"
| "wake_payloads (WakeWrite bs r # cs) = bs # wake_payloads cs"
| "wake_payloads (c # cs) = wake_payloads cs"

text \<open>The calls a state \<open>s'\<close> of \<open>pollEvents\<close> has made since the state \<open>s\<close>.\<close>

definition calls_since :: "poll_state \<Rightarrow> poll_state \<Rightarrow> call list" where
  "calls_since s s' = drop (length (hist s)) (hist s')"

text \<open>Every wait of a trace has the timeout that the events read before it ask for;
  \<open>acc\<close> is the number of events read before the trace starts.\<close>

fun timeouts_ok :: "int \<Rightarrow> call list \<Rightarrow> bool" where
  "timeouts_ok acc [] = True"
| "timeouts_ok acc (Poll t n # cs) = (t = (if acc \<noteq> 0 then 0 else - 1) \<and> timeouts_ok acc cs)"
| "timeouts_ok acc (c # cs) = timeouts_ok (acc + nb_of c) cs"


text \<open>No wait of the trace has failed.\<close>

fun wait_ok :: "call \<Rightarrow> bool" where
  "wait_ok (Poll t n) = (0 \<le> n)"
| "wait_ok c = True"

text \<open>A driver whose \<open>readEvents\<close> never returns a negative value (an error code).\<close>

definition readEvents_nonneg :: "env \<Rightarrow> bool" where
  "readEvents_nonneg E = (\<forall>t i d n. 0 \<le> drv_readEvents E t i d n)"

text \<open>The invariant that ties the trace to \<open>nbEvents\<close>.\<close>

definition trace_consistent :: "env \<Rightarrow> poll_state \<Rightarrow> bool" where
  "trace_consistent E s =
     (timeouts_ok 0 (hist s) \<and> events_read (hist s) = nbEvents s
      \<and> (readEvents_nonneg E \<longrightarrow> list_all (\<lambda>c. 0 \<le> nb_of c) (hist s)))"

text \<open>
  What the drain loop, started at index \<open>k\<close> in state \<open>s\<close>, has done when it is in state
  \<open>s'\<close>: it extended the trace; it read only sources from \<open>k\<close> on, and a source that
  returned fewer events than asked has its \<open>revents\<close> cleared; the \<open>revents\<close> below \<open>k\<close>
  are untouched; no readiness bit was set.
\<close>

definition drain_effect :: "nat \<Rightarrow> poll_state \<Rightarrow> poll_state \<Rightarrow> bool" where
  "drain_effect k s s' =
     (hist s' = hist s @ calls_since s s'
      \<and> (\<forall>i d n nb. ReadEvents i d n nb \<in> set (calls_since s s') \<longrightarrow>
            k \<le> i \<and> (nb < n \<longrightarrow> revents s' i = 0))
      \<and> (\<forall>j. j < k \<longrightarrow> revents s' j = revents s j)
      \<and> (\<forall>j. revents s' j AND POLLIN \<noteq> 0 \<longrightarrow> revents s j AND POLLIN \<noteq> 0))"

subsection \<open>The brightness as the specification words it\<close>

text \<open>Following the specification: the weights 77, 150 and 29 over the red, green and blue
  bytes of the low 24 bits of the colour, shifted right by 8.\<close>

definition spec_brightness :: "32 word \<Rightarrow> int" where
  "spec_brightness c =
     (77 * ((uint c div 65536) mod 256) + 150 * ((uint c div 256) mod 256) + 29 * (uint c mod 256))
       div 256"

subsection \<open>Concrete environments\<close>

text \<open>The identifiers as the handles of \<open>sSensorList\<close> (lines 55 to 61).\<close>

definition ids0 :: sensor_ids where
  "ids0 = \<lparr>ID_A = 0, ID_M = 1, ID_O = 2, ID_L = 3, ID_P = 4, ID_GY = 5, ID_SM = 6\<rparr>"

text \<open>
  A quiet system: the light sensor delivers up to two events per read and the proximity
  sensor one (none when asked for none); a blocking wait reports both ready, a wait with
  timeout 0 reports nothing.
\<close>

definition env_demo :: env where
  "env_demo =
     \<lparr>drv_hasPendingEvents = (\<lambda>t i. False),
      drv_readEvents = (\<lambda>t i d n.
         if i = light then max 0 (min n 2) else if i = proximity then max 0 (min n 1) else 0),
      drv_enable = (\<lambda>t i h e. 0),
      drv_setDelay = (\<lambda>t i h ns. 0),
      drv_batch = (\<lambda>t i h f sp ml. 0),
      drv_flush = (\<lambda>t i h. 0),
      sys_poll = (\<lambda>t rvs timeout.
         if timeout = 0 then (0, \<lambda>i. 0)
         else (2, (\<lambda>i. 0)(light := POLLIN, proximity := POLLIN))),
      sys_errno = (\<lambda>t. 0),
      sys_read_wake = (\<lambda>t. (1, CHR ''W'')),
      sys_write_wake = (\<lambda>t bs. 1)\<rparr>"

text \<open>The same system where \<open>enable\<close> fails with \<open>-EIO\<close> and a wait with timeout 0 fails
  with \<open>EINTR\<close>.\<close>

definition env_fail :: env where
  "env_fail =
     env_demo\<lparr>drv_enable := (\<lambda>t i h e. - 5),
              sys_poll := (\<lambda>t rvs timeout.
                 if timeout = 0 then (- 1, rvs)
                 else (2, (\<lambda>i. 0)(light := POLLIN, proximity := POLLIN))),
              sys_errno := (\<lambda>t. 4)\<rparr>"




text \<open>The readiness left by an earlier call: the light sensor ready.\<close>

definition light_ready :: "nat \<Rightarrow> 16 word" where
  "light_ready = (\<lambda>i. 0)(light := POLLIN)"

text \<open>The start of a \<open>pollEvents\<close> call with that readiness and a buffer of \<open>cnt\<close> events.\<close>

definition st_ready :: "int \<Rightarrow> poll_state" where
  "st_ready cnt = \<lparr>revents = light_ready, count = cnt, nbEvents = 0, data = 0, hist = []\<rparr>"

text \<open>A file system where every control file opens and the flag file holds \<open>1\<close>; and one
  where nothing opens (\<open>ENOENT\<close>).\<close>

definition os_ok :: lights_os where
  "os_ok =
     \<lparr>sys_open = (\<lambda>t p. 3),
      sys_write = (\<lambda>t fd bs. int (length bs)),
      sys_fopen = (\<lambda>t p. Some ''1''),
      sys_errno_l = (\<lambda>t. 0)\<rparr>"

definition os_noent :: lights_os where
  "os_noent =
     \<lparr>sys_open = (\<lambda>t p. - 1),
      sys_write = (\<lambda>t fd bs. - 1),
      sys_fopen = (\<lambda>t p. None),
      sys_errno_l = (\<lambda>t. 2)\<rparr>"

definition white :: light_state_t where
  "white = \<lparr>color = 0xFFFFFFFF, flashMode = 0, flashOnMS = 0, flashOffMS = 0, brightnessMode = 0\<rparr>"

section \<open>Theorems about libsensors\<close>

subsection \<open>Routing of handles\<close>

lemma handleToDriver_unknown:
  "handle \<notin> declared_ids ids \<Longrightarrow> handleToDriver ids handle = - EINVAL"
  by (simp add: handleToDriver_def declared_ids_def)

text \<open>
  C2. \<open>handleToDriver\<close> maps \<open>ID_A\<close>, \<open>ID_M\<close>, \<open>ID_O\<close> and \<open>ID_SM\<close> to the index \<open>akm\<close>,
  \<open>ID_P\<close> to \<open>proximity\<close>, \<open>ID_L\<close> to \<open>light\<close> and \<open>ID_GY\<close> to \<open>gyro\<close>. For every
  handle outside this set it returns \<open>-EINVAL\<close>, and \<open>activate\<close>, \<open>setDelay\<close>, \<open>batch\<close>
  and \<open>flush\<close> return that \<open>-EINVAL\<close> with an empty trace: no driver operation (and no
  other call) is made.
\<close>

theorem handleToDriver_routing:
  assumes "ids_distinct ids"
  shows "handleToDriver ids (ID_A ids) = int akm
       \<and> handleToDriver ids (ID_M ids) = int akm
       \<and> handleToDriver ids (ID_O ids) = int akm
       \<and> handleToDriver ids (ID_SM ids) = int akm
       \<and> handleToDriver ids (ID_P ids) = int proximity
       \<and> handleToDriver ids (ID_L ids) = int light
       \<and> handleToDriver ids (ID_GY ids) = int gyro
       \<and> (\<forall>handle. handle \<notin> declared_ids ids \<longrightarrow>
             handleToDriver ids handle = - EINVAL
           \<and> activate E ids handle enabled = (- EINVAL, [])
           \<and> setDelay E ids handle ns = (- EINVAL, [])
           \<and> batch E ids handle flags period latency = (- EINVAL, [])
           \<and> flush E ids handle = (- EINVAL, []))"
proof -
  have known: "handleToDriver ids (ID_A ids) = int akm"
    "handleToDriver ids (ID_M ids) = int akm"
    "handleToDriver ids (ID_O ids) = int akm"
    "handleToDriver ids (ID_SM ids) = int akm"
    "handleToDriver ids (ID_P ids) = int proximity"
    "handleToDriver ids (ID_L ids) = int light"
    "handleToDriver ids (ID_GY ids) = int gyro"
    using assms by (auto simp: handleToDriver_def ids_distinct_def)
  have unknown: "handleToDriver ids handle = - EINVAL
           \<and> activate E ids handle enabled = (- EINVAL, [])
           \<and> setDelay E ids handle ns = (- EINVAL, [])
           \<and> batch E ids handle flags period latency = (- EINVAL, [])
           \<and> flush E ids handle = (- EINVAL, [])"
    if "handle \<notin> declared_ids ids" for handle
    using handleToDriver_unknown [OF that]
    by (simp add: activate_def setDelay_def batch_def flush_def EINVAL_def)
  from known unknown show ?thesis by blast
qed

theorem handleToDriver_routing_witness:
  "ids_distinct ids0
   \<and> handleToDriver ids0 0 = 2 \<and> handleToDriver ids0 1 = 2 \<and> handleToDriver ids0 2 = 2
   \<and> handleToDriver ids0 6 = 2 \<and> handleToDriver ids0 4 = 1 \<and> handleToDriver ids0 3 = 0
   \<and> handleToDriver ids0 5 = 3
   \<and> 7 \<notin> declared_ids ids0
   \<and> handleToDriver ids0 7 = - 22
   \<and> activate env_demo ids0 7 1 = (- 22, [])
   \<and> setDelay env_demo ids0 7 1000 = (- 22, [])
   \<and> batch env_demo ids0 7 0 1000 0 = (- 22, [])
   \<and> flush env_demo ids0 7 = (- 22, [])"
proof -
  have d: "ids_distinct ids0" by (simp add: ids_distinct_def ids0_def)
  have u: "7 \<notin> declared_ids ids0" by (simp add: declared_ids_def ids0_def)
  show ?thesis
    using d u handleToDriver_routing [OF d, of env_demo 1 1000 0 1000 0]
    by (simp add: ids0_def akm_def proximity_def light_def gyro_def EINVAL_def)
qed

subsection \<open>activate\<close>

text \<open>
  C4. \<open>activate(handle, enabled)\<close> issues exactly one write of the byte \<open>'W'\<close> to the
  wake pipe if and only if the handle is known, \<open>enabled\<close> is not zero and the driver's
  \<open>enable\<close> returned 0; otherwise it issues none. For a known handle there is one
  \<open>enable\<close> call and its result is the return value: a failure is returned unchanged and
  nothing is written; a successful disable writes nothing either.
\<close>

theorem activate_wake_signal:
  "(handleToDriver ids handle < 0 \<longrightarrow>
      enable_results (snd (activate E ids handle enabled)) = []
    \<and> wake_payloads (snd (activate E ids handle enabled)) = [])
 \<and> (0 \<le> handleToDriver ids handle \<longrightarrow>
      enable_results (snd (activate E ids handle enabled)) = [fst (activate E ids handle enabled)]
    \<and> wake_payloads (snd (activate E ids handle enabled)) =
        (if enabled \<noteq> 0 \<and> fst (activate E ids handle enabled) = 0 then [[WAKE_MESSAGE]] else []))"
  by (simp add: activate_def Let_def)

theorem activate_wake_signal_witness:
  "0 \<le> handleToDriver ids0 5
   \<and> activate env_demo ids0 5 1 = (0, [Enable 3 5 1 0, WakeWrite ''W'' 1])
   \<and> wake_payloads (snd (activate env_demo ids0 5 1)) = [''W'']
   \<and> activate env_fail ids0 5 1 = (- 5, [Enable 3 5 1 (- 5)])
   \<and> wake_payloads (snd (activate env_fail ids0 5 1)) = []
   \<and> activate env_demo ids0 3 0 = (0, [Enable 0 3 0 0])
   \<and> wake_payloads (snd (activate env_demo ids0 3 0)) = []
   \<and> handleToDriver ids0 7 < 0
   \<and> wake_payloads (snd (activate env_demo ids0 7 1)) = []"
  using activate_wake_signal [of ids0 5 env_demo 1] activate_wake_signal [of ids0 5 env_fail 1]
    activate_wake_signal [of ids0 3 env_demo 0] activate_wake_signal [of ids0 7 env_demo 1]
  by (simp add: activate_def handleToDriver_def ids0_def env_demo_def env_fail_def
      akm_def proximity_def light_def gyro_def EINVAL_def WAKE_MESSAGE_def)

text \<open>
  C5. For every call \<open>activate(h, 0)\<close> where \<open>h\<close> resolves to the gyroscope driver, the
  trace is the call \<open>usleep(200 * 1000)\<close> (200 ms) followed by the driver's \<open>enable\<close>
  with \<open>enabled = 0\<close>: the sleep comes strictly before the disable. A \<open>usleep\<close> is
  called only for the gyroscope with \<open>enabled = 0\<close>: not on enable, not for another
  driver, not for an unknown handle.
\<close>

theorem gyro_disable_settles:
  "(handleToDriver ids handle = int gyro \<longrightarrow>
      snd (activate E ids handle 0) =
        [Usleep (200 * 1000),
         Enable gyro handle 0 (drv_enable E [Usleep (200 * 1000)] gyro handle 0)])
 \<and> (list_ex is_usleep (snd (activate E ids handle enabled))
      \<longleftrightarrow> handleToDriver ids handle = int gyro \<and> enabled = 0)"
  by (simp add: activate_def Let_def)

theorem gyro_disable_settles_witness:
  "handleToDriver ids0 5 = int gyro
   \<and> snd (activate env_demo ids0 5 0) = [Usleep 200000, Enable 3 5 0 0]
   \<and> \<not> list_ex is_usleep (snd (activate env_demo ids0 5 1))
   \<and> \<not> list_ex is_usleep (snd (activate env_demo ids0 3 0))"
  using gyro_disable_settles [of ids0 5 env_demo 0] gyro_disable_settles [of ids0 5 env_demo 1]
    gyro_disable_settles [of ids0 3 env_demo 0]
  by (simp add: handleToDriver_def ids0_def env_demo_def
      akm_def proximity_def light_def gyro_def EINVAL_def)

subsection \<open>pollEvents: the capacity of the buffer\<close>

lemma events_read_append [simp]: "events_read (t @ u) = events_read t + events_read u"
  by (simp add: events_read_def)

lemma events_read_Nil [simp]: "events_read [] = 0"
  by (simp add: events_read_def)

lemma events_read_Cons [simp]: "events_read (c # t) = nb_of c + events_read t"
  by (simp add: events_read_def)






lemmas run_defs = numeral_nat drain.simps drain_body_def drain_read_def wait_phase_def
  Let_def numSensorDrivers_def light_def proximity_def wake_def numFds_def POLLIN_def
  light_ready_def st_ready_def calls_since_def






subsection \<open>pollEvents: the timeout of the wait\<close>

lemma timeouts_ok_append:
  "timeouts_ok acc (t @ u) \<longleftrightarrow> timeouts_ok acc t \<and> timeouts_ok (acc + events_read t) u"
  by (induction acc t rule: timeouts_ok.induct) (simp_all add: add.assoc)



lemma drain_read_consistent:
  "trace_consistent E s \<Longrightarrow> trace_consistent E (drain_read E i s)"
  by (simp add: trace_consistent_def drain_read_def Let_def timeouts_ok_append readEvents_nonneg_def)

lemma drain_body_consistent:
  assumes "trace_consistent E s"
  shows "trace_consistent E (drain_body E i s)"
proof -
  have "trace_consistent E (s\<lparr>hist := hist s @ [HasPendingEvents i p]\<rparr>)" for p
    using assms by (simp add: trace_consistent_def timeouts_ok_append)
  with assms show ?thesis
    by (simp add: drain_body_def Let_def drain_read_consistent)
qed

lemma drain_consistent:
  "trace_consistent E s \<Longrightarrow> trace_consistent E (drain E i s)"
proof (induction E i s rule: drain.induct)
  case (1 E i s)
  then show ?case
    by (subst drain.simps) (simp add: drain_body_consistent)
qed

lemma wait_phase_consistent:
  assumes "trace_consistent E s" and "wait_phase E s = (r, n, s')"
  shows "trace_consistent E s'"
  using assms
  by (auto simp: wait_phase_def Let_def trace_consistent_def timeouts_ok_append
      split: prod.splits if_splits)





subsection \<open>pollEvents: the readiness bits\<close>

lemma drain_body_reads_iff:
  "list_ex (is_read_of i) (calls_since s (drain_body E i s))
     \<longleftrightarrow> revents s i AND POLLIN \<noteq> 0 \<or> drv_hasPendingEvents E (hist s) i"
  by (simp add: calls_since_def drain_body_def drain_read_def Let_def)

lemma drain_effect_refl: "drain_effect k s s"
  by (simp add: drain_effect_def calls_since_def)

lemma drain_effect_body: "drain_effect k s (drain_body E k s)"
  by (auto simp: drain_effect_def calls_since_def drain_body_def drain_read_def Let_def)

lemma drain_effect_trans:
  assumes a: "drain_effect k s s1" and b: "drain_effect (Suc k) s1 s2"
    and only_k: "\<forall>i d n nb. ReadEvents i d n nb \<in> set (calls_since s s1) \<longrightarrow> i = k"
  shows "drain_effect k s s2"
proof -
  from a have h1: "hist s1 = hist s @ calls_since s s1" by (simp add: drain_effect_def)
  from b have h2: "hist s2 = hist s1 @ calls_since s1 s2" by (simp add: drain_effect_def)
  have cs: "calls_since s s2 = calls_since s s1 @ calls_since s1 s2"
    using h1 h2 by (metis append.assoc append_eq_conv_conj calls_since_def)
  have hist: "hist s2 = hist s @ calls_since s s2"
    using h1 h2 cs by simp
  have reads: "k \<le> i \<and> (nb < n \<longrightarrow> revents s2 i = 0)"
    if "ReadEvents i d n nb \<in> set (calls_since s s2)" for i d n nb
  proof -
    from that cs consider "ReadEvents i d n nb \<in> set (calls_since s s1)"
      | "ReadEvents i d n nb \<in> set (calls_since s1 s2)" by auto
    then show ?thesis
    proof cases
      case 1
      with only_k have ik: "i = k" by blast
      from a 1 have "nb < n \<longrightarrow> revents s1 i = 0" by (simp add: drain_effect_def)
      moreover from b ik have "revents s2 i = revents s1 i" by (simp add: drain_effect_def)
      ultimately show ?thesis using ik by simp
    next
      case 2
      with b have "Suc k \<le> i \<and> (nb < n \<longrightarrow> revents s2 i = 0)"
        unfolding drain_effect_def by blast
      then show ?thesis by simp
    qed
  qed
  have below: "revents s2 j = revents s j" if "j < k" for j
    using a b that by (simp add: drain_effect_def)
  have bits: "revents s j AND POLLIN \<noteq> 0" if "revents s2 j AND POLLIN \<noteq> 0" for j
    using a b that unfolding drain_effect_def by blast
  from hist reads below bits show ?thesis
    unfolding drain_effect_def by blast
qed

lemma drain_body_reads_only:
  "ReadEvents i d n nb \<in> set (calls_since s (drain_body E k s)) \<Longrightarrow> i = k"
  by (auto simp: calls_since_def drain_body_def drain_read_def Let_def split: if_splits)

lemma drain_effect_drain: "drain_effect k s (drain E k s)"
proof (induction E k s rule: drain.induct)
  case (1 E i s)
  show ?case
  proof (cases "count s \<noteq> 0 \<and> i < numSensorDrivers")
    case True
    with "1.IH" have "drain_effect (Suc i) (drain_body E i s) (drain E (Suc i) (drain_body E i s))"
      by simp
    with drain_effect_body [of i s E] have "drain_effect i s (drain E (Suc i) (drain_body E i s))"
      by (rule drain_effect_trans) (blast dest: drain_body_reads_only)
    with True show ?thesis by (subst drain.simps) simp
  next
    case False
    then show ?thesis by (subst drain.simps) (auto simp: drain_effect_refl)
  qed
qed

lemma wait_phase_revents:
  "j \<noteq> wake \<Longrightarrow>
   revents (snd (snd (wait_phase E s))) j =
     snd (sys_poll E (hist s) (revents s) (if nbEvents s \<noteq> 0 then 0 else - 1)) j"
  by (simp add: wait_phase_def Let_def split: prod.splits)

text \<open>
  C6. In an iteration of the drain loop the source \<open>i\<close> is read if and only if its readiness
  bit (\<open>revents & POLLIN\<close>) is set or it reports pending events. Whenever, in a drain
  pass, a read of source \<open>i\<close> returned fewer events than the \<open>n\<close> asked for, the bit of
  \<open>i\<close> is clear when the pass ends, that is before the next wait. A drain pass never sets
  a bit: a bit set after it was set before it. After the wait phase the \<open>revents\<close> of every
  driver source are the ones the wait reported, so a bit becomes set only by a wait.
\<close>

theorem readiness_bit_protocol:
  "(list_ex (is_read_of i) (calls_since s (drain_body E i s))
      \<longleftrightarrow> revents s i AND POLLIN \<noteq> 0 \<or> drv_hasPendingEvents E (hist s) i)
 \<and> (ReadEvents i d n nb \<in> set (calls_since s (drain E k s)) \<and> nb < n
      \<longrightarrow> revents (drain E k s) i AND POLLIN = 0)
 \<and> (revents (drain E k s) j AND POLLIN \<noteq> 0 \<longrightarrow> revents s j AND POLLIN \<noteq> 0)
 \<and> (j \<noteq> wake \<longrightarrow>
      revents (snd (snd (wait_phase E s))) j =
        snd (sys_poll E (hist s) (revents s) (if nbEvents s \<noteq> 0 then 0 else - 1)) j)"
proof -
  have de: "drain_effect k s (drain E k s)" by (rule drain_effect_drain)
  have a: "revents (drain E k s) i AND POLLIN = 0"
    if "ReadEvents i d n nb \<in> set (calls_since s (drain E k s))" and "nb < n"
  proof -
    from de that have "revents (drain E k s) i = 0" unfolding drain_effect_def by blast
    then show ?thesis by simp
  qed
  have b: "revents s j AND POLLIN \<noteq> 0" if "revents (drain E k s) j AND POLLIN \<noteq> 0"
    using de that unfolding drain_effect_def by blast
  from a b drain_body_reads_iff [of i s E] wait_phase_revents [of j E s] show ?thesis
    by blast
qed

theorem readiness_bit_protocol_witness:
  "list_ex (is_read_of 0) (calls_since (st_ready 10) (drain_body env_demo 0 (st_ready 10)))
   \<and> revents (st_ready 10) 0 AND POLLIN \<noteq> 0
   \<and> ReadEvents 0 0 10 2 \<in> set (calls_since (st_ready 10) (drain env_demo 0 (st_ready 10)))
   \<and> (2::int) < 10
   \<and> revents (drain env_demo 0 (st_ready 10)) 0 AND POLLIN = 0
   \<and> revents (drain env_demo 0 (st_ready 2)) 0 AND POLLIN \<noteq> 0
   \<and> revents (st_ready 2) 0 AND POLLIN \<noteq> 0
   \<and> 1 \<noteq> wake
   \<and> revents (snd (snd (wait_phase env_demo (st_ready 10)))) 1 = POLLIN"
  using readiness_bit_protocol [where i = 0 and s = "st_ready 10" and E = env_demo and d = 0
      and n = 10 and nb = 2 and k = 0 and j = 1]
    readiness_bit_protocol [where i = 0 and s = "st_ready 2" and E = env_demo and d = 0
      and n = 2 and nb = 2 and k = 0 and j = 0]
  by (simp add: run_defs env_demo_def)

subsection \<open>pollEvents: a failing wait\<close>

lemma drain_read_waits: "list_all wait_ok (hist s) \<Longrightarrow> list_all wait_ok (hist (drain_read E i s))"
  by (simp add: drain_read_def Let_def)

lemma drain_body_waits: "list_all wait_ok (hist s) \<Longrightarrow> list_all wait_ok (hist (drain_body E i s))"
  by (simp add: drain_body_def drain_read_def Let_def)

lemma drain_waits: "list_all wait_ok (hist s) \<Longrightarrow> list_all wait_ok (hist (drain E i s))"
proof (induction E i s rule: drain.induct)
  case (1 E i s)
  then show ?case
    by (subst drain.simps) (simp add: drain_body_waits)
qed

text \<open>A trace whose waits all succeeded, or one that ends with the failed wait whose
  \<open>-errno\<close> is the result.\<close>

lemma wait_phase_waits:
  assumes "list_all wait_ok (hist s)" and "wait_phase E s = (r, n, s')"
  shows "(r = None \<longrightarrow> list_all wait_ok (hist s'))
       \<and> (\<forall>e. r = Some e \<longrightarrow>
             n < 0 \<and> hist s' = hist s @ [Poll (if nbEvents s \<noteq> 0 then 0 else - 1) n]
           \<and> e = - int (sys_errno E (hist s')) \<and> nbEvents s' = nbEvents s)"
  using assms
  by (auto simp: wait_phase_def Let_def split: prod.splits if_splits)

lemma pollLoop_failed_wait:
  "list_all wait_ok (hist s) \<Longrightarrow> trace_consistent E s \<Longrightarrow> pollLoop E k s = (res, s') \<Longrightarrow>
   list_all wait_ok (hist s')
   \<or> (\<exists>pre t n. hist s' = pre @ [Poll t n] \<and> n < 0 \<and> list_all wait_ok pre
        \<and> res = Some (- int (sys_errno E (hist s'))) \<and> nbEvents s' = events_read pre)"
proof (induction k arbitrary: s)
  case 0
  then show ?case by simp
next
  case (Suc k)
  let ?s1 = "drain E 0 s"
  have q1: "list_all wait_ok (hist ?s1)" using Suc.prems(1) by (rule drain_waits)
  have c1: "trace_consistent E ?s1" using Suc.prems(2) by (rule drain_consistent)
  show ?case
  proof (cases "count ?s1 \<noteq> 0")
    case False
    with Suc.prems(3) have "s' = ?s1" by (auto simp: Let_def)
    with q1 show ?thesis by simp
  next
    case True
    obtain r n s2 where wp: "wait_phase E ?s1 = (r, n, s2)"
      by (cases "wait_phase E ?s1") auto
    note w = wait_phase_waits [OF q1 wp]
    have c2: "trace_consistent E s2" using c1 wp by (rule wait_phase_consistent)
    show ?thesis
    proof (cases r)
      case (Some e)
      with True wp Suc.prems(3) have rs: "res = Some e" "s' = s2" by (auto simp: Let_def)
      from w Some have "n < 0"
        and h: "hist s2 = hist ?s1 @ [Poll (if nbEvents ?s1 \<noteq> 0 then 0 else - 1) n]"
        and e: "e = - int (sys_errno E (hist s2))" and nb: "nbEvents s2 = nbEvents ?s1"
        by auto
      moreover from c1 have "events_read (hist ?s1) = nbEvents ?s1"
        by (simp add: trace_consistent_def)
      ultimately show ?thesis using q1 rs by auto
    next
      case None
      with w have q2: "list_all wait_ok (hist s2)" by simp
      show ?thesis
      proof (cases "n \<noteq> 0 \<and> count s2 \<noteq> 0")
        case True
        with \<open>count ?s1 \<noteq> 0\<close> wp None Suc.prems(3) have "pollLoop E k s2 = (res, s')"
          by (auto simp: Let_def)
        from Suc.IH [OF q2 c2 this] show ?thesis .
      next
        case False
        with \<open>count ?s1 \<noteq> 0\<close> wp None Suc.prems(3) have "s' = s2" by (auto simp: Let_def)
        with q2 show ?thesis by simp
      qed
    qed
  qed
qed

text \<open>
  C10. If a wait inside a \<open>pollEvents\<close> call fails (\<open>poll\<close> returns \<open>n < 0\<close>), it is the
  last call of the trace and the call returns \<open>-errno\<close>, whatever the reads before it
  have copied into the caller's buffer: their number, the value of \<open>nbEvents\<close> at that
  moment, can be positive and is no part of what is returned. The events stay in the
  buffer and the caller receives only the error.
\<close>

theorem poll_failure_discards_count:
  assumes "pollEvents E rvs cnt fuel = (res, s')"
      and "hist s' = pre @ Poll timeout n # post"
      and "n < 0"
  shows "post = []
       \<and> res = Some (- int (sys_errno E (hist s')))
       \<and> nbEvents s' = events_read pre"
proof -
  let ?s0 = "\<lparr>revents = rvs, count = cnt, nbEvents = 0, data = 0, hist = []\<rparr>"
  have "list_all wait_ok (hist ?s0)" and "trace_consistent E ?s0"
    by (simp_all add: trace_consistent_def)
  from pollLoop_failed_wait [OF this assms(1) [unfolded pollEvents_def]]
  consider "list_all wait_ok (hist s')"
    | pre' t' n' where "hist s' = pre' @ [Poll t' n']" "list_all wait_ok pre'"
        "res = Some (- int (sys_errno E (hist s')))" "nbEvents s' = events_read pre'"
    by blast
  then show ?thesis
  proof cases
    case 1
    with assms(2,3) show ?thesis by simp
  next
    case 2
    have "post = []"
    proof (rule ccontr)
      assume "post \<noteq> []"
      then obtain post' x where "post = post' @ [x]" by (meson rev_exhaust)
      with assms(2) 2(1) have "pre' = pre @ Poll timeout n # post'" by simp
      with 2(2) assms(3) show False by simp
    qed
    with assms(2) 2(1) have "pre' = pre" by simp
    with \<open>post = []\<close> 2 show ?thesis by simp
  qed
qed

theorem poll_failure_discards_count_witness:
  "hist (snd (pollEvents env_fail light_ready 10 1)) =
     [ReadEvents 0 0 10 2, HasPendingEvents 1 False, HasPendingEvents 2 False,
      HasPendingEvents 3 False] @ Poll 0 (- 1) # []
 \<and> (- 1 :: int) < 0
 \<and> fst (pollEvents env_fail light_ready 10 1) = Some (- 4)
 \<and> nbEvents (snd (pollEvents env_fail light_ready 10 1)) = 2
 \<and> events_read [ReadEvents 0 0 10 2, HasPendingEvents 1 False, HasPendingEvents 2 False,
      HasPendingEvents 3 False] = 2"
proof -
  have run: "pollEvents env_fail light_ready 10 1 =
      (fst (pollEvents env_fail light_ready 10 1), snd (pollEvents env_fail light_ready 10 1))"
    by simp
  have h: "hist (snd (pollEvents env_fail light_ready 10 1)) =
     [ReadEvents 0 0 10 2, HasPendingEvents 1 False, HasPendingEvents 2 False,
      HasPendingEvents 3 False] @ Poll 0 (- 1) # []"
    by (simp add: pollEvents_def run_defs env_fail_def env_demo_def)
  have n: "(- 1 :: int) < 0" by simp
  have e: "sys_errno env_fail t = 4" for t by (simp add: env_fail_def)
  show ?thesis
    using h poll_failure_discards_count [OF run h n]
    by (simp add: e)
qed

section \<open>Theorems about liblights\<close>

subsection \<open>The backlight brightness\<close>

lemma ff_mask: "(0xff :: 32 word) = mask 8" "(0x00ffffff :: 32 word) = mask 24"
  by (simp_all add: mask_eq_exp_minus_1)

lemma channel_word:
  fixes c :: "32 word"
  shows "drop_bit 16 (c AND 0x00ffffff) AND 0x00ff = take_bit 8 (drop_bit 16 c)"
    and "drop_bit 8 (c AND 0x00ffffff) AND 0x00ff = take_bit 8 (drop_bit 8 c)"
    and "(c AND 0x00ffffff) AND 0x00ff = take_bit 8 c"
  unfolding ff_mask
  by (simp_all flip: take_bit_eq_mask add: drop_bit_take_bit)

lemma uint_channel:
  fixes c :: "32 word"
  shows "uint (take_bit 8 (drop_bit n c)) = (uint c div 2 ^ n) mod 256"
proof -
  have "take_bit 32 (uint c) = uint c"
    using uint_bounded [of c] by (intro take_bit_int_eq_self) simp_all
  then have "uint (take_bit 8 (drop_bit n c)) = take_bit 8 (drop_bit n (uint c))"
    by (simp add: unsigned_take_bit_eq unsigned_drop_bit_eq)
  also have "\<dots> = (uint c div 2 ^ n) mod 256"
    by (simp add: take_bit_eq_mod drop_bit_eq_div)
  finally show ?thesis .
qed

lemma channel_uint:
  fixes c :: "32 word"
  shows "uint (drop_bit 16 (c AND 0x00ffffff) AND 0x00ff) = (uint c div 65536) mod 256"
    and "uint (drop_bit 8 (c AND 0x00ffffff) AND 0x00ff) = (uint c div 256) mod 256"
    and "uint ((c AND 0x00ffffff) AND 0x00ff) = uint c mod 256"
  unfolding channel_word
  using uint_channel [of 16 c] uint_channel [of 8 c] uint_channel [of 0 c]
  by simp_all

lemma weighted_sum_uint:
  fixes r g b :: "32 word"
  assumes "uint r < 256" "uint g < 256" "uint b < 256"
  shows "uint (77 * r + 150 * g + 29 * b) = 77 * uint r + 150 * uint g + 29 * uint b"
proof -
  have "0 \<le> uint r" "0 \<le> uint g" "0 \<le> uint b" by simp_all
  with assms have "77 * uint r + 150 * uint g + 29 * uint b < 2 ^ 32" by simp
  moreover have "0 \<le> 77 * uint r + 150 * uint g + 29 * uint b" by simp
  ultimately show ?thesis
    by (simp add: uint_word_ariths mod_add_eq mod_mult_right_eq mod_pos_pos_trivial)
qed

lemma uint_drop_bit_32:
  fixes w :: "32 word"
  shows "uint (drop_bit n w) = uint w div 2 ^ n"
proof -
  have "take_bit 32 (uint w) = uint w"
    using uint_bounded [of w] by (intro take_bit_int_eq_self) simp_all
  moreover have "uint (drop_bit n w) = drop_bit n (take_bit 32 (uint w))"
    by (simp add: unsigned_drop_bit_eq)
  ultimately show ?thesis
    by (simp add: drop_bit_eq_div)
qed

lemma rgb_to_brightness_spec: "rgb_to_brightness st = spec_brightness (color st)"
proof -
  define r where "r = drop_bit 16 (color st AND 0x00ffffff) AND 0x00ff"
  define g where "g = drop_bit 8 (color st AND 0x00ffffff) AND 0x00ff"
  define b where "b = (color st AND 0x00ffffff) AND 0x00ff"
  define total where "total = 77 * r + 150 * g + 29 * b"
  have ch: "uint r = (uint (color st) div 65536) mod 256"
    "uint g = (uint (color st) div 256) mod 256"
    "uint b = uint (color st) mod 256"
    unfolding r_def g_def b_def by (rule channel_uint)+
  then have lt: "uint r < 256" "uint g < 256" "uint b < 256" by simp_all
  have total: "uint total = 77 * uint r + 150 * uint g + 29 * uint b"
    unfolding total_def using lt by (rule weighted_sum_uint)
  have shifted: "uint (drop_bit 8 total) = uint total div 256"
    using uint_drop_bit_32 [of 8 total] by simp
  have small: "uint (drop_bit 8 total) < 2 ^ 31"
    unfolding shifted total using lt by simp
  have "sint (drop_bit 8 total) = uint (drop_bit 8 total)"
  proof -
    have "- (2 ^ 31) \<le> uint (drop_bit 8 total)"
      by (rule order_trans [of _ 0]) simp_all
    with small show ?thesis
      by (simp add: sint_uint signed_take_bit_int_eq_self)
  qed
  then have "sint (drop_bit 8 total) = (77 * uint r + 150 * uint g + 29 * uint b) div 256"
    by (simp only: shifted total)
  moreover have "rgb_to_brightness st = sint (drop_bit 8 total)"
    by (simp only: rgb_to_brightness_def Let_def total_def r_def g_def b_def)
  ultimately show ?thesis
    by (simp only: spec_brightness_def ch)
qed

text \<open>
  C9. For every light state the brightness computed by \<open>rgb_to_brightness\<close>, which is the
  value \<open>set_light_backlight\<close> hands to \<open>write_int\<close> for the backlight file, equals
  \<open>(77 * r + 150 * g + 29 * b) >> 8\<close> over the red, green and blue bytes of the low 24 bits
  of the colour; the alpha byte is ignored. In particular the colour \<open>0x00FF0000\<close> yields
  76, \<open>0x0000FF00\<close> yields 149, \<open>0x000000FF\<close> yields 28 and \<open>0x00FFFFFF\<close> yields 255.
\<close>

theorem backlight_brightness:
  "rgb_to_brightness st = spec_brightness (color st)
 \<and> rgb_to_brightness (st\<lparr>color := color st AND 0x00ffffff\<rparr>) = rgb_to_brightness st
 \<and> (\<exists>s2. set_light_backlight os st s = write_int os LCD_FILE (spec_brightness (color st)) s2)
 \<and> rgb_to_brightness (st\<lparr>color := 0x00FF0000\<rparr>) = 76
 \<and> rgb_to_brightness (st\<lparr>color := 0x0000FF00\<rparr>) = 149
 \<and> rgb_to_brightness (st\<lparr>color := 0x000000FF\<rparr>) = 28
 \<and> rgb_to_brightness (st\<lparr>color := 0x00FFFFFF\<rparr>) = 255"
proof -
  have masked: "rgb_to_brightness (st\<lparr>color := color st AND 0x00ffffff\<rparr>) = rgb_to_brightness st"
    by (simp add: rgb_to_brightness_def)
  have written: "\<exists>s2. set_light_backlight os st s = write_int os LCD_FILE (spec_brightness (color st)) s2"
    unfolding set_light_backlight_def Let_def rgb_to_brightness_spec
    by (rule exI) (rule refl)
  have vals: "rgb_to_brightness (st\<lparr>color := 0x00FF0000\<rparr>) = 76"
    "rgb_to_brightness (st\<lparr>color := 0x0000FF00\<rparr>) = 149"
    "rgb_to_brightness (st\<lparr>color := 0x000000FF\<rparr>) = 28"
    "rgb_to_brightness (st\<lparr>color := 0x00FFFFFF\<rparr>) = 255"
    by (simp_all add: rgb_to_brightness_spec spec_brightness_def)
  from rgb_to_brightness_spec masked written vals show ?thesis by blast
qed

lemmas lights_defs = set_light_backlight_def set_light_buttons_def load_settings_def write_int_def
  write_str_def rgb_to_brightness_def Let_def since_def lights_init_def white_def os_ok_def
  os_noent_def fmt_d_def dec_digits.simps

theorem backlight_brightness_witness:
  "rgb_to_brightness white = 255
 \<and> spec_brightness 0xFFFFFFFF = 255
 \<and> rgb_to_brightness (white\<lparr>color := 0xFF804020\<rparr>) = 79
 \<and> ltrace (snd (set_light_backlight os_ok white lights_init)) =
      [Fopen SETTINGS_FILE (Some ''1''), ALOGE (Backlight_values 0 255),
       Open LCD_FILE 3, Write 3 [CHR ''2'', CHR ''5'', CHR ''5'', CHR 0x0A] 4, Close 3]"
  using backlight_brightness [of white os_ok lights_init]
    backlight_brightness [of "white\<lparr>color := 0xFF804020\<rparr>" os_ok lights_init]
  by (simp add: rgb_to_brightness_spec spec_brightness_def white_def set_light_backlight_def load_settings_def
      write_int_def os_ok_def lights_init_def Let_def fmt_d_def dec_digits.simps)

subsection \<open>The globals are only changed where the source changes them\<close>

lemma write_int_globals:
  "g_enable_touchlight (snd (write_int os path v s)) = g_enable_touchlight s"
  "write_str_already_warned (snd (write_int os path v s)) = write_str_already_warned s"
  "write_int_already_warned s \<noteq> 0 \<Longrightarrow> write_int_already_warned (snd (write_int os path v s)) \<noteq> 0"
  "g_notification_blink_support (snd (write_int os path v s)) = g_notification_blink_support s"
  "g_notification_blink_rate_support (snd (write_int os path v s)) = g_notification_blink_rate_support s"
  by (simp_all add: write_int_def Let_def)

lemma write_str_globals:
  "g_enable_touchlight (snd (write_str os path str s)) = g_enable_touchlight s"
  "write_int_already_warned (snd (write_str os path str s)) = write_int_already_warned s"
  "write_str_already_warned s \<noteq> 0 \<Longrightarrow> write_str_already_warned (snd (write_str os path str s)) \<noteq> 0"
  by (simp_all add: write_str_def Let_def)

lemma load_settings_globals:
  "write_int_already_warned (load_settings os s) = write_int_already_warned s"
  "write_str_already_warned (load_settings os s) = write_str_already_warned s"
  by (simp_all add: load_settings_def Let_def split: option.splits)

lemma set_light_notifications_globals:
  "g_enable_touchlight (snd (set_light_notifications os st s)) = g_enable_touchlight s"
  "write_int_already_warned s \<noteq> 0 \<Longrightarrow>
     write_int_already_warned (snd (set_light_notifications os st s)) \<noteq> 0"
  "write_str_already_warned s \<noteq> 0 \<Longrightarrow>
     write_str_already_warned (snd (set_light_notifications os st s)) \<noteq> 0"
  by (simp_all add: set_light_notifications_def Let_def split_beta write_int_globals
      write_str_globals)

lemma set_light_int_flag:
  assumes "write_int_already_warned s \<noteq> 0"
  shows "write_int_already_warned (snd (set_light os l st s)) \<noteq> 0"
proof (cases l)
  case BACKLIGHT
  with assms show ?thesis
    by (simp add: set_light_backlight_def Let_def write_int_globals load_settings_globals)
next
  case BUTTONS
  with assms show ?thesis
    by (simp add: set_light_buttons_def Let_def write_int_globals)
next
  case NOTIFICATIONS
  with assms show ?thesis
    by (simp add: set_light_notifications_globals)
qed (use assms in \<open>simp_all add: set_light_keyboard_def set_light_battery_def\<close>)

lemma set_light_str_flag:
  assumes "write_str_already_warned s \<noteq> 0"
  shows "write_str_already_warned (snd (set_light os l st s)) \<noteq> 0"
proof (cases l)
  case BACKLIGHT
  with assms show ?thesis
    by (simp add: set_light_backlight_def Let_def write_int_globals load_settings_globals)
next
  case BUTTONS
  with assms show ?thesis
    by (simp add: set_light_buttons_def Let_def write_int_globals)
next
  case NOTIFICATIONS
  with assms show ?thesis
    by (simp add: set_light_notifications_globals)
qed (use assms in \<open>simp_all add: set_light_keyboard_def set_light_battery_def\<close>)

lemma set_lights_int_flag:
  "write_int_already_warned s \<noteq> 0 \<Longrightarrow> write_int_already_warned (set_lights os cs s) \<noteq> 0"
proof (induction cs arbitrary: s)
  case Nil
  then show ?case by simp
next
  case (Cons c cs)
  obtain l st where c: "c = (l, st)" by (cases c)
  from Cons.prems have "write_int_already_warned (snd (set_light os l st s)) \<noteq> 0"
    by (rule set_light_int_flag)
  from Cons.IH [OF this] show ?case by (simp add: c)
qed

lemma set_lights_str_flag:
  "write_str_already_warned s \<noteq> 0 \<Longrightarrow> write_str_already_warned (set_lights os cs s) \<noteq> 0"
proof (induction cs arbitrary: s)
  case Nil
  then show ?case by simp
next
  case (Cons c cs)
  obtain l st where c: "c = (l, st)" by (cases c)
  from Cons.prems have "write_str_already_warned (snd (set_light os l st s)) \<noteq> 0"
    by (rule set_light_str_flag)
  from Cons.IH [OF this] show ?case by (simp add: c)
qed

lemma set_light_keeps_touchlight:
  "l \<noteq> BACKLIGHT \<Longrightarrow> g_enable_touchlight (snd (set_light os l st s)) = g_enable_touchlight s"
  by (cases l) (simp_all add: set_light_keyboard_def set_light_buttons_def
      set_light_battery_def set_light_notifications_globals write_int_globals)

subsection \<open>The button light and the preference flag\<close>

lemma set_light_buttons_opens:
  "list_ex (is_open_of BUTTONS_FILE) (since s (snd (set_light_buttons os st s)))
     \<longleftrightarrow> g_enable_touchlight s = - 1 \<or> 0 < g_enable_touchlight s"
  by (simp add: set_light_buttons_def write_int_def Let_def since_def)

lemma load_settings_flag:
  "g_enable_touchlight (load_settings os s) =
     (case sys_fopen os (ltrace s) SETTINGS_FILE of
        None \<Rightarrow> 1
      | Some bytes \<Rightarrow> if take 1 bytes = ''1'' then 0 else 1)"
  by (simp add: load_settings_def Let_def split: option.splits list.splits)

lemma set_light_backlight_flag:
  "g_enable_touchlight (snd (set_light_backlight os st s)) = g_enable_touchlight (load_settings os s)"
  by (simp add: set_light_backlight_def Let_def write_int_globals)

lemma buttons_after_backlight:
  "list_ex (is_open_of BUTTONS_FILE)
       (since (snd (set_light_backlight os st0 s))
          (snd (set_light_buttons os st (snd (set_light_backlight os st0 s)))))
      \<longleftrightarrow> (case sys_fopen os (ltrace s) SETTINGS_FILE of
             None \<Rightarrow> True
           | Some bytes \<Rightarrow> take 1 bytes \<noteq> ''1'')"
  unfolding set_light_buttons_opens set_light_backlight_flag load_settings_flag
  by (simp split: option.splits)

text \<open>
  C7, as stated, fails. \<open>set_light_buttons\<close> does not read the flag file. In the initial
  state (\<open>g_enable_touchlight = -1\<close>) with a flag file whose first character is \<open>1\<close>, it
  opens and writes the button control file. And after a \<open>set_light_backlight\<close> call
  made while the flag file was absent (which caches 1), a \<open>set_light_buttons\<close> call made
  when the file holds \<open>1\<close> still writes.
\<close>

theorem buttons_written_despite_flag:
  "sys_fopen os_ok [] SETTINGS_FILE = Some ''1''
 \<and> set_light_buttons os_ok white lights_init =
      (0, lights_init\<lparr>ltrace := [Open BUTTONS_FILE 3, Write 3 [CHR ''1'', CHR 0x0A] 2, Close 3]\<rparr>)
 \<and> g_enable_touchlight (snd (set_light_backlight os_noent white lights_init)) = 1
 \<and> since (snd (set_light_backlight os_noent white lights_init))
       (snd (set_light_buttons os_ok white (snd (set_light_backlight os_noent white lights_init)))) =
      [Open BUTTONS_FILE 3, Write 3 [CHR ''1'', CHR 0x0A] 2, Close 3]"
  by (simp add: lights_defs)

text \<open>
  C7, amended. \<open>set_light_buttons\<close> itself reads no file. It performs the button
  control-file write if and only if the cached flag \<open>g_enable_touchlight\<close> is -1 (never
  loaded) or positive; otherwise the write is skipped and 0 is returned. The flag is
  loaded from \<open>/data/.disable_touchlight\<close> by \<open>load_settings\<close>, which only
  \<open>set_light_backlight\<close> calls: it becomes 0 when the file opens and its first character
  is \<open>1\<close>, and 1 otherwise (file absent, empty, or another first character). Setting any
  other light leaves the flag as it is. So a \<open>set_light_buttons\<close> call that comes right
  after a \<open>set_light_backlight\<close> call writes if and only if the file was absent or its
  first character was not \<open>1\<close> when the backlight call read it.
\<close>

theorem set_light_buttons_gate:
  "\<not> list_ex is_fopen (since s (snd (set_light_buttons os st s)))
 \<and> (list_ex (is_open_of BUTTONS_FILE) (since s (snd (set_light_buttons os st s)))
      \<longleftrightarrow> g_enable_touchlight s = - 1 \<or> 0 < g_enable_touchlight s)
 \<and> (\<not> (g_enable_touchlight s = - 1 \<or> 0 < g_enable_touchlight s)
      \<longrightarrow> set_light_buttons os st s = (0, s))
 \<and> g_enable_touchlight (load_settings os s) =
      (case sys_fopen os (ltrace s) SETTINGS_FILE of
         None \<Rightarrow> 1
       | Some bytes \<Rightarrow> if take 1 bytes = ''1'' then 0 else 1)
 \<and> g_enable_touchlight (snd (set_light_backlight os st s)) = g_enable_touchlight (load_settings os s)
 \<and> (l \<noteq> BACKLIGHT \<longrightarrow> g_enable_touchlight (snd (set_light os l st s)) = g_enable_touchlight s)
 \<and> (list_ex (is_open_of BUTTONS_FILE)
       (since (snd (set_light_backlight os st0 s))
          (snd (set_light_buttons os st (snd (set_light_backlight os st0 s)))))
      \<longleftrightarrow> (case sys_fopen os (ltrace s) SETTINGS_FILE of
             None \<Rightarrow> True
           | Some bytes \<Rightarrow> take 1 bytes \<noteq> ''1''))"
proof -
  have a: "\<not> list_ex is_fopen (since s (snd (set_light_buttons os st s)))"
    by (simp add: set_light_buttons_def write_int_def Let_def since_def)
  have b: "list_ex (is_open_of BUTTONS_FILE) (since s (snd (set_light_buttons os st s)))
      \<longleftrightarrow> g_enable_touchlight s = - 1 \<or> 0 < g_enable_touchlight s"
    by (simp add: set_light_buttons_def write_int_def Let_def since_def)
  have c: "\<not> (g_enable_touchlight s = - 1 \<or> 0 < g_enable_touchlight s)
      \<longrightarrow> set_light_buttons os st s = (0, s)"
    by (simp add: set_light_buttons_def)
  have d: "g_enable_touchlight (load_settings os s) =
      (case sys_fopen os (ltrace s) SETTINGS_FILE of
         None \<Rightarrow> 1
       | Some bytes \<Rightarrow> if take 1 bytes = ''1'' then 0 else 1)"
    by (simp add: load_settings_def Let_def split: option.splits list.splits)
  have e: "g_enable_touchlight (snd (set_light_backlight os st s)) = g_enable_touchlight (load_settings os s)"
    by (simp add: set_light_backlight_def Let_def write_int_globals)
  have f: "list_ex (is_open_of BUTTONS_FILE)
       (since (snd (set_light_backlight os st0 s))
          (snd (set_light_buttons os st (snd (set_light_backlight os st0 s)))))
      \<longleftrightarrow> (case sys_fopen os (ltrace s) SETTINGS_FILE of
             None \<Rightarrow> True
           | Some bytes \<Rightarrow> take 1 bytes \<noteq> ''1'')"
    by (rule buttons_after_backlight)
  show ?thesis
    by (intro conjI) (fact a, fact b, fact c, fact d, fact e,
        use set_light_keeps_touchlight [of l os st s] in blast, fact f)
qed

theorem set_light_buttons_gate_witness:
  "g_enable_touchlight (load_settings os_ok lights_init) = 0
 \<and> set_light_buttons os_ok white (load_settings os_ok lights_init) = (0, load_settings os_ok lights_init)
 \<and> g_enable_touchlight lights_init = - 1
 \<and> list_ex (is_open_of BUTTONS_FILE) (since lights_init (snd (set_light_buttons os_ok white lights_init)))
 \<and> \<not> list_ex is_fopen (since lights_init (snd (set_light_buttons os_ok white lights_init)))
 \<and> BUTTONS \<noteq> BACKLIGHT
 \<and> g_enable_touchlight (snd (set_light os_ok BUTTONS white lights_init)) = - 1
 \<and> sys_fopen os_ok (ltrace lights_init) SETTINGS_FILE = Some ''1''
 \<and> \<not> list_ex (is_open_of BUTTONS_FILE)
       (since (snd (set_light_backlight os_ok white lights_init))
          (snd (set_light_buttons os_ok white (snd (set_light_backlight os_ok white lights_init)))))"
  using set_light_buttons_gate [where s = "load_settings os_ok lights_init" and os = os_ok
      and st = white and l = BUTTONS and ?st0.0 = white]
    set_light_buttons_gate [where s = lights_init and os = os_ok and st = white and l = BUTTONS
      and ?st0.0 = white]
  by (simp add: lights_init_def load_settings_def os_ok_def Let_def)

subsection \<open>Failed opens\<close>

text \<open>
  C8, as stated, fails: the warning is not per path. After a failed open of the backlight
  file in \<open>write_int\<close> (logged), the first failed open of the different button file in
  \<open>write_int\<close> returns \<open>-errno\<close> and logs nothing.
\<close>

theorem second_path_not_warned:
  "LCD_FILE \<noteq> BUTTONS_FILE
 \<and> write_int os_noent LCD_FILE 255 lights_init =
      (- 2, lights_init\<lparr>ltrace := [Open LCD_FILE (- 1), ALOGE (Failed_to_open LCD_FILE)],
                        write_int_already_warned := 1\<rparr>)
 \<and> write_int os_noent BUTTONS_FILE 1 (snd (write_int os_noent LCD_FILE 255 lights_init)) =
      (- 2, lights_init\<lparr>ltrace := [Open LCD_FILE (- 1), ALOGE (Failed_to_open LCD_FILE),
                                   Open BUTTONS_FILE (- 1)],
                        write_int_already_warned := 1\<rparr>)"
  by (simp add: lights_defs LCD_FILE_def BUTTONS_FILE_def)

text \<open>
  C8, amended. Whenever \<open>write_int\<close> or \<open>write_str\<close> fails to open its path, the call
  returns \<open>-errno\<close>, on every such call. The failure is logged once per function, not per
  path: each of the two functions has one \<open>already_warned\<close> flag of its own; a failed
  open emits the warning exactly when that function's flag is still 0, and leaves it
  non-zero; no \<open>set_light\<close> call ever resets a flag. So after the first failed open
  inside \<open>write_int\<close> no later failed open inside \<open>write_int\<close>, of the same or of any other
  path, emits a warning, and likewise for \<open>write_str\<close>.
\<close>

theorem open_failure_reporting:
  "(sys_open os (ltrace s) path < 0 \<longrightarrow>
      fst (write_int os path v s) = - int (sys_errno_l os (ltrace (snd (write_int os path v s))))
    \<and> since s (snd (write_int os path v s)) =
        Open path (sys_open os (ltrace s) path) #
          (if write_int_already_warned s = 0 then [ALOGE (Failed_to_open path)] else [])
    \<and> write_int_already_warned (snd (write_int os path v s)) \<noteq> 0
    \<and> write_str_already_warned (snd (write_int os path v s)) = write_str_already_warned s)
 \<and> (sys_open os (ltrace s) path < 0 \<longrightarrow>
      fst (write_str os path str s) = - int (sys_errno_l os (ltrace (snd (write_str os path str s))))
    \<and> since s (snd (write_str os path str s)) =
        Open path (sys_open os (ltrace s) path) #
          (if write_str_already_warned s = 0 then [ALOGE (Failed_to_open path)] else [])
    \<and> write_str_already_warned (snd (write_str os path str s)) \<noteq> 0
    \<and> write_int_already_warned (snd (write_str os path str s)) = write_int_already_warned s)
 \<and> (write_int_already_warned s \<noteq> 0 \<longrightarrow> write_int_already_warned (set_lights os cs s) \<noteq> 0)
 \<and> (write_str_already_warned s \<noteq> 0 \<longrightarrow> write_str_already_warned (set_lights os cs s) \<noteq> 0)"
proof (intro conjI)
  show "sys_open os (ltrace s) path < 0 \<longrightarrow>
      fst (write_int os path v s) = - int (sys_errno_l os (ltrace (snd (write_int os path v s))))
    \<and> since s (snd (write_int os path v s)) =
        Open path (sys_open os (ltrace s) path) #
          (if write_int_already_warned s = 0 then [ALOGE (Failed_to_open path)] else [])
    \<and> write_int_already_warned (snd (write_int os path v s)) \<noteq> 0
    \<and> write_str_already_warned (snd (write_int os path v s)) = write_str_already_warned s"
    by (simp add: write_int_def Let_def since_def)
  show "sys_open os (ltrace s) path < 0 \<longrightarrow>
      fst (write_str os path str s) = - int (sys_errno_l os (ltrace (snd (write_str os path str s))))
    \<and> since s (snd (write_str os path str s)) =
        Open path (sys_open os (ltrace s) path) #
          (if write_str_already_warned s = 0 then [ALOGE (Failed_to_open path)] else [])
    \<and> write_str_already_warned (snd (write_str os path str s)) \<noteq> 0
    \<and> write_int_already_warned (snd (write_str os path str s)) = write_int_already_warned s"
    by (simp add: write_str_def Let_def since_def)
  show "write_int_already_warned s \<noteq> 0 \<longrightarrow> write_int_already_warned (set_lights os cs s) \<noteq> 0"
    using set_lights_int_flag [of s os cs] by blast
  show "write_str_already_warned s \<noteq> 0 \<longrightarrow> write_str_already_warned (set_lights os cs s) \<noteq> 0"
    using set_lights_str_flag [of s os cs] by blast
qed

theorem open_failure_reporting_witness:
  "sys_open os_noent (ltrace lights_init) LCD_FILE < 0
 \<and> fst (write_int os_noent LCD_FILE 255 lights_init) = - 2
 \<and> since lights_init (snd (write_int os_noent LCD_FILE 255 lights_init)) =
      [Open LCD_FILE (- 1), ALOGE (Failed_to_open LCD_FILE)]
 \<and> write_int_already_warned (snd (write_int os_noent LCD_FILE 255 lights_init)) \<noteq> 0
 \<and> since (snd (write_int os_noent LCD_FILE 255 lights_init))
       (snd (write_int os_noent LCD_FILE 255 (snd (write_int os_noent LCD_FILE 255 lights_init)))) =
      [Open LCD_FILE (- 1)]
 \<and> fst (write_str os_noent NOTIFICATION_BLINK_RATE_FILE ''500 500'' lights_init) = - 2
 \<and> since lights_init (snd (write_str os_noent NOTIFICATION_BLINK_RATE_FILE ''500 500'' lights_init)) =
      [Open NOTIFICATION_BLINK_RATE_FILE (- 1), ALOGE (Failed_to_open NOTIFICATION_BLINK_RATE_FILE)]
 \<and> write_int_already_warned
      (set_lights os_noent [(BACKLIGHT, white), (BUTTONS, white)]
         (snd (write_int os_noent LCD_FILE 255 lights_init))) \<noteq> 0"
  using open_failure_reporting [of os_noent lights_init LCD_FILE 255 "''500 500''" "[]"]
    open_failure_reporting [of os_noent lights_init NOTIFICATION_BLINK_RATE_FILE 255 "''500 500''" "[]"]
    open_failure_reporting [of os_noent "snd (write_int os_noent LCD_FILE 255 lights_init)" LCD_FILE 255
      "''500 500''" "[(BACKLIGHT, white), (BUTTONS, white)]"]
  by (simp add: lights_init_def os_noent_def write_int_def Let_def)

end
